theory Spec2Isabelle
  imports Main "HOL-Library.Sublist"
begin

section \<open>Characters and character classes\<close>

text \<open>
  The converter is \<open>MarkdownParser.parse\<close> of \<open>src/app.js\<close>: a chain of
  \<open>String.prototype.replace\<close> calls with regular-expression literals, followed by a
  split on blank lines. Strings are lists of code units; a code unit is a \<open>char\<close>,
  so the model covers the code units below 256.
\<close>

definition nl :: char where
  "nl = CHR 0x0A"

definition cr :: char where
  "cr = CHR 0x0D"

text \<open>ECMAScript \<open>LineTerminator\<close> (LF, CR) and the characters of \<open>\s\<close>
  (TAB, LF, VT, FF, CR, SP, NBSP), as far as they lie below 256.\<close>

definition is_line_terminator :: "char \<Rightarrow> bool" where
  "is_line_terminator c = (c = nl \<or> c = cr)"

definition is_space :: "char \<Rightarrow> bool" where
  "is_space c = (c \<in> set [CHR 0x09, CHR 0x0A, CHR 0x0B, CHR 0x0C, CHR 0x0D, CHR 0x20, CHR 0xA0])"

definition is_digit :: "char \<Rightarrow> bool" where
  "is_digit c = (c \<in> set ''0123456789'')"

text \<open>The members of a bracket class: a literal character, \<open>\s\<close>, \<open>\S\<close>, \<open>\d\<close>.\<close>

datatype catom = CChar char | CSpace | CNonSpace | CDigit

fun in_catom :: "catom \<Rightarrow> char \<Rightarrow> bool" where
  "in_catom (CChar a) c = (c = a)"
| "in_catom CSpace c = is_space c"
| "in_catom CNonSpace c = (\<not> is_space c)"
| "in_catom CDigit c = is_digit c"

text \<open>What one position of a pattern accepts: \<open>.\<close>, an escape such as \<open>\s\<close>,
  \<open>[...]\<close> or \<open>[^...]\<close>.\<close>

datatype cset = Dot | Atom catom | Class "catom list" | NegClass "catom list"

section \<open>Regular expressions\<close>

text \<open>
  Every pattern of the source is a sequence of terms: a literal character, a class, the
  assertions \<open>^\<close> and \<open>$\<close>, a class under \<open>*\<close>, \<open>+\<close>, \<open>*?\<close> or \<open>+?\<close>
  (\<open>Many greedy min class\<close>), and the parentheses of a capture group.
\<close>

datatype item = Chr char | One cset | Bol | Eol | Many bool nat cset | Open nat | Close nat

record regex =
  rx_items :: "item list"
  rx_global :: bool
  rx_multiline :: bool
  rx_dotall :: bool

definition in_cset :: "regex \<Rightarrow> cset \<Rightarrow> char \<Rightarrow> bool" where
  "in_cset rx k c =
     (case k of
        Dot \<Rightarrow> rx_dotall rx \<or> \<not> is_line_terminator c
      | Atom a \<Rightarrow> in_catom a c
      | Class as \<Rightarrow> (\<exists>a \<in> set as. in_catom a c)
      | NegClass as \<Rightarrow> \<not> (\<exists>a \<in> set as. in_catom a c))"

text \<open>\<open>^\<close> looks at the character before the position (\<open>None\<close> at the start of the
  input), \<open>$\<close> at the rest of the input.\<close>

definition at_bol :: "regex \<Rightarrow> char option \<Rightarrow> bool" where
  "at_bol rx p = (case p of None \<Rightarrow> True | Some c \<Rightarrow> rx_multiline rx \<and> is_line_terminator c)"

definition at_eol :: "regex \<Rightarrow> string \<Rightarrow> bool" where
  "at_eol rx s = (case s of [] \<Rightarrow> True | c # _ \<Rightarrow> rx_multiline rx \<and> is_line_terminator c)"

type_synonym caps = "nat \<Rightarrow> string"

text \<open>
  The backtracking matcher at one position. \<open>p\<close> is the character before the position,
  \<open>s\<close> the input from the position on, \<open>os\<close> the input at the opening parenthesis of
  each group and \<open>cs\<close> the captures. The result is the state after the match that a
  backtracking search finds first: a greedy quantifier tries one more character before
  it tries the rest of the pattern, a lazy one the other way round.
\<close>

fun run :: "regex \<Rightarrow> item list \<Rightarrow> char option \<Rightarrow> string \<Rightarrow> caps \<Rightarrow> caps
    \<Rightarrow> (char option \<times> string \<times> caps) option" where
  "run rx [] p s os cs = Some (p, s, cs)"
| "run rx (Chr a # r) p s os cs =
     (case s of [] \<Rightarrow> None
      | x # t \<Rightarrow> if x = a then run rx r (Some x) t os cs else None)"
| "run rx (One k # r) p s os cs =
     (case s of [] \<Rightarrow> None
      | x # t \<Rightarrow> if in_cset rx k x then run rx r (Some x) t os cs else None)"
| "run rx (Bol # r) p s os cs = (if at_bol rx p then run rx r p s os cs else None)"
| "run rx (Eol # r) p s os cs = (if at_eol rx s then run rx r p s os cs else None)"
| "run rx (Open g # r) p s os cs = run rx r p s (os(g := s)) cs"
| "run rx (Close g # r) p s os cs =
     run rx r p s os (cs(g := take (length (os g) - length s) (os g)))"
| "run rx (Many gr mn k # r) p s os cs =
     (if 0 < mn then
        (case s of [] \<Rightarrow> None
         | x # t \<Rightarrow> if in_cset rx k x then run rx (Many gr (mn - 1) k # r) (Some x) t os cs
                  else None)
      else if gr then
        (case s of [] \<Rightarrow> run rx r p s os cs
         | x # t \<Rightarrow>
             if in_cset rx k x then
               (case run rx (Many gr 0 k # r) (Some x) t os cs of
                  Some res \<Rightarrow> Some res
                | None \<Rightarrow> run rx r p s os cs)
             else run rx r p s os cs)
      else
        (case run rx r p s os cs of
           Some res \<Rightarrow> Some res
         | None \<Rightarrow>
             (case s of [] \<Rightarrow> None
              | x # t \<Rightarrow> if in_cset rx k x then run rx (Many gr 0 k # r) (Some x) t os cs
                       else None)))"

text \<open>The replacement string, cut at its \<open>$n\<close> references.\<close>

datatype tpart = Txt string | Ref nat

fun subst :: "tpart list \<Rightarrow> caps \<Rightarrow> string" where
  "subst [] cs = []"
| "subst (Txt t # ps) cs = t @ subst ps cs"
| "subst (Ref g # ps) cs = cs g @ subst ps cs"

definition no_caps :: caps where
  "no_caps = (\<lambda>_. [])"

text \<open>
  \<open>String.prototype.replace\<close> with a regular expression and a replacement string.
  The search tries each position from left to right; what it steps over is copied.
  Without the \<open>g\<close> flag only the first match is replaced. With it the search goes on
  behind the match, one character further when the match was empty.
\<close>

function replace :: "regex \<Rightarrow> tpart list \<Rightarrow> char option \<Rightarrow> string \<Rightarrow> string" where
  "replace rx tpl p s =
     (case run rx (rx_items rx) p s no_caps no_caps of
        None \<Rightarrow> (case s of [] \<Rightarrow> [] | x # t \<Rightarrow> x # replace rx tpl (Some x) t)
      | Some (p', s', cs) \<Rightarrow>
          subst tpl cs @
          (if \<not> rx_global rx then s'
           else if length s' < length s then replace rx tpl p' s'
           else (case s of [] \<Rightarrow> [] | x # t \<Rightarrow> x # replace rx tpl (Some x) t)))"
  by pat_completeness auto
termination
  by (relation "measure (\<lambda>(rx, tpl, p, s). length s)") auto

text \<open>\<open>String.prototype.match\<close> with a pattern without \<open>g\<close>, read as a truth value:
  is there a position where the pattern matches.\<close>

fun matches :: "regex \<Rightarrow> char option \<Rightarrow> string \<Rightarrow> bool" where
  "matches rx p [] = (run rx (rx_items rx) p [] no_caps no_caps \<noteq> None)"
| "matches rx p (x # t) =
     (run rx (rx_items rx) p (x # t) no_caps no_caps \<noteq> None \<or> matches rx (Some x) t)"

text \<open>\<open>split('\n\n')\<close>: the pieces between the occurrences of two line feeds, found
  from left to right; \<open>cur\<close> is the piece being read.\<close>

fun split_blank :: "string \<Rightarrow> string \<Rightarrow> string list" where
  "split_blank cur (a # b # t) =
     (if a = nl \<and> b = nl then cur # split_blank [] t else split_blank (cur @ [a]) (b # t))"
| "split_blank cur t = [cur @ t]"

fun join :: "string \<Rightarrow> string list \<Rightarrow> string" where
  "join sep [] = []"
| "join sep [x] = x"
| "join sep (x # y # ys) = x @ sep @ join sep (y # ys)"

section \<open>The patterns of the converter\<close>

definition lit :: "string \<Rightarrow> item list" where
  "lit w = map Chr w"

definition space :: cset where
  "space = Atom CSpace"

definition rx_gm :: "item list \<Rightarrow> regex" where
  "rx_gm its = \<lparr>rx_items = its, rx_global = True, rx_multiline = True, rx_dotall = False\<rparr>"

definition rx_g :: "item list \<Rightarrow> regex" where
  "rx_g its = \<lparr>rx_items = its, rx_global = True, rx_multiline = False, rx_dotall = False\<rparr>"

text \<open>\<open>/&/g\<close>, \<open>/</g\<close>, \<open>/>/g\<close>\<close>

definition escape :: "string \<Rightarrow> string" where
  "escape s =
     replace (rx_g (lit ''>'')) [Txt ''&gt;''] None
       (replace (rx_g (lit ''<'')) [Txt ''&lt;''] None
         (replace (rx_g (lit ''&'')) [Txt ''&amp;''] None s))"

text \<open>\<open>/^######\s+(.+)$/gm\<close> down to \<open>/^#\s+(.+)$/gm\<close>\<close>

definition header_rx :: "nat \<Rightarrow> regex" where
  "header_rx n =
     rx_gm ([Bol] @ lit (replicate n CHR ''#'') @
            [Many True 1 space, Open 1, Many True 1 Dot, Close 1, Eol])"

definition header :: "nat \<Rightarrow> string \<Rightarrow> string" where
  "header n s =
     replace (header_rx n)
       [Txt (''<h'' @ [char_of (48 + n)] @ ''>''), Ref 1, Txt (''</h'' @ [char_of (48 + n)] @ ''>'')]
       None s"

definition headers :: "string \<Rightarrow> string" where
  "headers s = header 1 (header 2 (header 3 (header 4 (header 5 (header 6 s)))))"

text \<open>\<open>/\*\*(.+?)\*\*/g\<close>, \<open>/__(.+?)__/g\<close>, \<open>/\*(.+?)\*/g\<close>, \<open>/_(.+?)_/g\<close>\<close>

definition span_rx :: "string \<Rightarrow> regex" where
  "span_rx m = rx_g (lit m @ [Open 1, Many False 1 Dot, Close 1] @ lit m)"

definition bold :: "string \<Rightarrow> string" where
  "bold s =
     replace (span_rx ''__'') [Txt ''<strong>'', Ref 1, Txt ''</strong>''] None
       (replace (span_rx ''**'') [Txt ''<strong>'', Ref 1, Txt ''</strong>''] None s)"

definition italic :: "string \<Rightarrow> string" where
  "italic s =
     replace (span_rx ''_'') [Txt ''<em>'', Ref 1, Txt ''</em>''] None
       (replace (span_rx ''*'') [Txt ''<em>'', Ref 1, Txt ''</em>''] None s)"

text \<open>\<open>/```([\s\S]*?)```/g\<close>\<close>

definition code_block_rx :: regex where
  "code_block_rx =
     rx_g (lit ''```'' @ [Open 1, Many False 0 (Class [CSpace, CNonSpace]), Close 1] @ lit ''```'')"

definition code_blocks :: "string \<Rightarrow> string" where
  "code_blocks s = replace code_block_rx [Txt ''<pre><code>'', Ref 1, Txt ''</code></pre>''] None s"

text \<open>\<open>/`([^`]+)`/g\<close>\<close>

definition inline_code_rx :: regex where
  "inline_code_rx =
     rx_g (lit ''`'' @ [Open 1, Many True 1 (NegClass [CChar CHR ''`'']), Close 1] @ lit ''`'')"

definition inline_code :: "string \<Rightarrow> string" where
  "inline_code s = replace inline_code_rx [Txt ''<code>'', Ref 1, Txt ''</code>''] None s"

text \<open>\<open>/\[([^\]]+)\]\(([^)]+)\)/g\<close>\<close>

definition link_rx :: regex where
  "link_rx =
     rx_g (lit ''['' @ [Open 1, Many True 1 (NegClass [CChar CHR '']'']), Close 1] @ lit '']('' @
           [Open 2, Many True 1 (NegClass [CChar CHR '')'']), Close 2] @ lit '')'')"

definition links :: "string \<Rightarrow> string" where
  \<open>links s =
     replace link_rx
       [Txt ''<a href="'', Ref 2, Txt ''" target="_blank">'', Ref 1, Txt ''</a>''] None s\<close>

text \<open>\<open>/!\[([^\]]*)\]\(([^)]+)\)/g\<close>\<close>

definition image_rx :: regex where
  "image_rx =
     rx_g (lit ''!['' @ [Open 1, Many True 0 (NegClass [CChar CHR '']'']), Close 1] @ lit '']('' @
           [Open 2, Many True 1 (NegClass [CChar CHR '')'']), Close 2] @ lit '')'')"

definition images :: "string \<Rightarrow> string" where
  \<open>images s =
     replace image_rx [Txt ''<img src="'', Ref 2, Txt ''" alt="'', Ref 1, Txt ''" />''] None s\<close>

text \<open>\<open>/^---$/gm\<close>, \<open>/^\*\*\*$/gm\<close>\<close>

definition rule_rx :: "string \<Rightarrow> regex" where
  "rule_rx m = rx_gm ([Bol] @ lit m @ [Eol])"

definition hrules :: "string \<Rightarrow> string" where
  "hrules s =
     replace (rule_rx ''***'') [Txt ''<hr>''] None
       (replace (rule_rx ''---'') [Txt ''<hr>''] None s)"

text \<open>\<open>/^&gt;\s+(.+)$/gm\<close>\<close>

definition blockquote_rx :: regex where
  "blockquote_rx =
     rx_gm ([Bol] @ lit ''&gt;'' @ [Many True 1 space, Open 1, Many True 1 Dot, Close 1, Eol])"

definition blockquotes :: "string \<Rightarrow> string" where
  "blockquotes s =
     replace blockquote_rx [Txt ''<blockquote>'', Ref 1, Txt ''</blockquote>''] None s"

text \<open>\<open>/^[*-]\s+(.+)$/gm\<close>, then \<open>/(<li>.*<\/li>)/s\<close>\<close>

definition ul_item_rx :: regex where
  "ul_item_rx =
     rx_gm [Bol, One (Class [CChar CHR ''*'', CChar CHR ''-'']), Many True 1 space,
            Open 1, Many True 1 Dot, Close 1, Eol]"

definition ul_wrap_rx :: regex where
  "ul_wrap_rx =
     \<lparr>rx_items = [Open 1] @ lit ''<li>'' @ [Many True 0 Dot] @ lit ''</li>'' @ [Close 1],
      rx_global = False, rx_multiline = False, rx_dotall = True\<rparr>"

definition ul_items :: "string \<Rightarrow> string" where
  "ul_items s = replace ul_item_rx [Txt ''<li>'', Ref 1, Txt ''</li>''] None s"

definition ul_wrap :: "string \<Rightarrow> string" where
  "ul_wrap s = replace ul_wrap_rx [Txt ''<ul>'', Ref 1, Txt ''</ul>''] None s"

text \<open>\<open>/^\d+\.\s+(.+)$/gm\<close>\<close>

definition ol_item_rx :: regex where
  "ol_item_rx =
     rx_gm ([Bol, Many True 1 (Atom CDigit)] @ lit ''.'' @
            [Many True 1 space, Open 1, Many True 1 Dot, Close 1, Eol])"

definition ol_items :: "string \<Rightarrow> string" where
  "ol_items s = replace ol_item_rx [Txt ''<li>'', Ref 1, Txt ''</li>''] None s"

text \<open>\<open>/^<[h|u|o|p|b]/\<close>: the bar is a member of the class like the letters.\<close>

definition block_rx :: regex where
  "block_rx =
     \<lparr>rx_items = [Bol] @ lit ''<'' @
        [One (Class [CChar CHR ''h'', CChar CHR ''|'', CChar CHR ''u'', CChar CHR ''|'',
                     CChar CHR ''o'', CChar CHR ''|'', CChar CHR ''p'', CChar CHR ''|'',
                     CChar CHR ''b''])],
      rx_global = False, rx_multiline = False, rx_dotall = False\<rparr>"

definition wrap_para :: "string \<Rightarrow> string" where
  "wrap_para para = (if \<not> matches block_rx None para then ''<p>'' @ para @ ''</p>'' else para)"

definition paragraphs :: "string \<Rightarrow> string" where
  "paragraphs s = join [nl] (map wrap_para (split_blank [] s))"

section \<open>The converter\<close>

text \<open>
  The argument of \<open>parse\<close> is any value of the language. \<open>!markdown\<close> holds for
  \<open>undefined\<close>, \<open>null\<close>, \<open>false\<close> and the empty string; a value that is not a
  string and not one of these has no \<open>replace\<close> method, and the first call raises a
  \<open>TypeError\<close>.
\<close>

datatype jsval = JUndefined | JNull | JBool bool | JStr string

datatype error = TypeError

definition falsy :: "jsval \<Rightarrow> bool" where
  "falsy v = (case v of JUndefined \<Rightarrow> True | JNull \<Rightarrow> True | JBool b \<Rightarrow> \<not> b | JStr s \<Rightarrow> s = [])"

text \<open>The replacements behind the escape, in the order of the source, and the whole chain.\<close>

definition markup :: "string \<Rightarrow> string" where
  "markup t =
     paragraphs (ol_items (ul_wrap (ul_items (blockquotes (hrules (images (links
       (inline_code (code_blocks (italic (bold (headers t))))))))))))"

definition stages :: "string \<Rightarrow> string" where
  "stages s = markup (escape s)"

definition parse :: "jsval \<Rightarrow> error + string" where
  "parse markdown =
     (if falsy markdown then Inr []
      else case markdown of JStr s \<Rightarrow> Inr (stages s) | _ \<Rightarrow> Inl TypeError)"

section \<open>The properties in the words of the specification\<close>

text \<open>A segment starts a block when its first two characters are \<open><\<close> and one of
  \<open>h\<close>, \<open>u\<close>, \<open>o\<close>, \<open>p\<close>, \<open>b\<close> or the bar.\<close>

definition starts_block :: "string \<Rightarrow> bool" where
  "starts_block seg =
     (case seg of a # b # _ \<Rightarrow> a = CHR ''<'' \<and> b \<in> set ''huopb|'' | _ \<Rightarrow> False)"


text \<open>
  The tags that the replacement strings of the source contain. A tag without attributes is
  listed whole; the link and the image tag carry text of the input in their attributes, so
  they are known by their opening (\<open><a \<close>, \<open><img \<close>) and by the character
  before their closing bracket (the quote of \<open>target="_blank">\<close>, the slash of
  \<open>/>\<close>).
\<close>

definition tag_names :: "string list" where
  "tag_names = [''h1'', ''h2'', ''h3'', ''h4'', ''h5'', ''h6'', ''strong'', ''em'', ''pre'',
                ''code'', ''blockquote'', ''li'', ''ul'', ''p'']"

definition simple_tags :: "string list" where
  "simple_tags =
     concat (map (\<lambda>n. [''<'' @ n @ ''>'', ''</'' @ n @ ''>'']) tag_names) @ [''</a>'', ''<hr>'']"

definition after_amp :: "string list" where
  "after_amp = [''amp;'', ''lt;'', ''gt;'']"

definition after_lt :: "string list" where
  "after_lt = map tl simple_tags @ [''a '', ''img '']"

definition before_gt :: "string list" where
  "before_gt = map butlast simple_tags @ [[CHR 0x22], ''/'']"

text \<open>
  A text is well escaped when each \<open>&\<close> in it starts one of the three entities, each
  \<open><\<close> starts a tag of the replacement strings and each \<open>>\<close> ends one.
  \<open>char_ok x c y\<close> says so for the character \<open>c\<close> between \<open>x\<close> and \<open>y\<close>.
\<close>

definition char_ok :: "string \<Rightarrow> char \<Rightarrow> string \<Rightarrow> bool" where
  "char_ok x c y =
     (if c = CHR ''&'' then (\<exists>w \<in> set after_amp. prefix w y)
      else if c = CHR ''<'' then (\<exists>w \<in> set after_lt. prefix w y)
      else if c = CHR ''>'' then (\<exists>w \<in> set before_gt. suffix w x)
      else True)"

fun lex_from :: "string \<Rightarrow> string \<Rightarrow> bool" where
  "lex_from x [] = True"
| "lex_from x (c # y) = (char_ok x c y \<and> lex_from (x @ [c]) y)"

definition well_escaped :: "string \<Rightarrow> bool" where
  "well_escaped t = lex_from [] t"

text \<open>
  A place between two characters can lie inside an entity or a tag only if the character
  before it is one that occurs before the end of one (\<open>inner_l\<close>) and the character
  behind it is one that occurs behind the start of one (\<open>inner_r\<close>).
\<close>

definition inner_l :: "char \<Rightarrow> bool" where
  "inner_l a =
     (a \<in> set ''&<'' \<or> (\<exists>w \<in> set (after_amp @ after_lt). a \<in> set (butlast w))
      \<or> (\<exists>w \<in> set before_gt. a \<in> set w))"

definition inner_r :: "char \<Rightarrow> bool" where
  "inner_r b =
     (b = CHR ''>'' \<or> (\<exists>w \<in> set (after_amp @ after_lt). b \<in> set w)
      \<or> (\<exists>w \<in> set before_gt. b \<in> set (tl w)))"

definition ok_cut :: "char option \<Rightarrow> string \<Rightarrow> bool" where
  "ok_cut p y =
     ((case p of None \<Rightarrow> True | Some a \<Rightarrow> \<not> inner_l a)
      \<or> (case y of [] \<Rightarrow> True | b # _ \<Rightarrow> \<not> inner_r b))"

definition lastopt :: "string \<Rightarrow> char option" where
  "lastopt x = (if x = [] then None else Some (last x))"

definition after :: "char option \<Rightarrow> string \<Rightarrow> char option" where
  "after p m = (if m = [] then p else Some (last m))"



section \<open>Facts about the matcher\<close>

declare run.simps(8) [simp del]
declare replace.simps [simp del]

lemma run_many_more [simp]:
  "run rx (Many gr (Suc n) k # r) p [] os cs = None"
  "run rx (Many gr (Suc n) k # r) p (x # t) os cs =
     (if in_cset rx k x then run rx (Many gr n k # r) (Some x) t os cs else None)"
  by (simp_all add: run.simps(8))

lemma run_greedy_nil: "run rx (Many True 0 k # r) p [] os cs = run rx r p [] os cs"
  by (simp add: run.simps(8))

lemma run_greedy_cons:
  "run rx (Many True 0 k # r) p (x # t) os cs =
     (if in_cset rx k x then
        (case run rx (Many True 0 k # r) (Some x) t os cs of
           Some res \<Rightarrow> Some res | None \<Rightarrow> run rx r p (x # t) os cs)
      else run rx r p (x # t) os cs)"
  by (simp add: run.simps(8))

lemma replace_prev:
  assumes "\<And>p q. run rx (rx_items rx) p s no_caps no_caps = run rx (rx_items rx) q s no_caps no_caps"
  shows "replace rx tpl p s = replace rx tpl q s"
  by (subst replace.simps[of rx tpl p s], subst replace.simps[of rx tpl q s])
     (simp add: assms[of p q])

lemma run_lit:
  "run rx (lit w @ r) p s os cs =
     (if prefix w s then run rx r (if w = [] then p else Some (last w)) (drop (length w) s) os cs
      else None)"
proof (induction w arbitrary: p s)
  case Nil
  then show ?case by (simp add: lit_def)
next
  case (Cons a w)
  have l: "lit (a # w) @ r = Chr a # (lit w @ r)" by (simp add: lit_def)
  show ?case
  proof (cases s)
    case Nil
    then show ?thesis by (simp add: l)
  next
    case (Cons x t)
    then show ?thesis using Cons.IH[of "Some x" t] by (auto simp add: l)
  qed
qed

lemma run_lit_end:
  "run rx (lit w) p s os cs =
     (if prefix w s then Some (if w = [] then p else Some (last w), drop (length w) s, cs)
      else None)"
  using run_lit[of rx w "[]" p s os cs] by simp

lemma greedy_none:
  "\<not> sublist w u \<Longrightarrow> run rx (Many True 0 k # lit w @ r) p u os cs = None"
proof (induction u arbitrary: p)
  case Nil
  then have "w \<noteq> []" by auto
  then show ?case by (simp add: run_lit run_greedy_nil)
next
  case (Cons x t)
  then have a: "\<not> prefix w (x # t)" and b: "\<not> sublist w t"
    by (simp_all add: sublist_Cons_right)
  show ?case using Cons.IH[OF b] a by (simp add: run_lit run_greedy_cons)
qed

lemma greedy_last:
  assumes "run rx r (Some (last w)) b os cs = Some res" and "w \<noteq> []"
    and "\<not> sublist w (tl w @ b)" and "\<forall>x \<in> set m. in_cset rx k x"
  shows "run rx (Many True 0 k # lit w @ r) p (m @ w @ b) os cs = Some res"
  using assms(4)
proof (induction m arbitrary: p)
  case Nil
  obtain x w' where w: "w = x # w'" using assms(2) by (cases w) auto
  have n: "run rx (Many True 0 k # lit w @ r) (Some x) (w' @ b) os cs = None"
    using greedy_none[of w "w' @ b"] assms(3) w by simp
  have c: "run rx (lit w @ r) p (w @ b) os cs = Some res"
    using assms(1,2) by (simp add: run_lit)
  show ?case using n c w by (simp add: run_greedy_cons)
next
  case (Cons y m)
  then show ?case by (simp add: run_greedy_cons)
qed

lemma close_take: "os = u @ b \<Longrightarrow> take (length os - length b) os = u"
  by simp

lemma run_lazy_nil: "run rx (Many False 0 k # r) p [] os cs = run rx r p [] os cs"
  by (simp add: run.simps(8) split: option.splits)

lemma run_lazy_cons:
  "run rx (Many False 0 k # r) p (x # t) os cs =
     (case run rx r p (x # t) os cs of
        Some res \<Rightarrow> Some res
      | None \<Rightarrow> if in_cset rx k x then run rx (Many False 0 k # r) (Some x) t os cs else None)"
  by (simp add: run.simps(8) split: option.split)

lemma prefix_long: "length w \<le> length u \<Longrightarrow> prefix w (u @ v) = prefix w u"
  by (auto simp add: prefix_append)

lemma prefix_inside:
  assumes "\<not> prefix w (x # c @ butlast w)" and "w \<noteq> []"
  shows "\<not> prefix w (x # c @ w @ b)"
proof -
  have "x # c @ w @ b = (x # c @ butlast w) @ (last w # b)"
    using assms(2) by simp
  moreover have "length w \<le> length (x # c @ butlast w)" by simp
  ultimately show ?thesis using assms(1) prefix_long by metis
qed

lemma lazy_first:
  assumes "\<not> sublist w (c @ butlast w)" and "w \<noteq> []" and "\<forall>x \<in> set c. in_cset rx k x"
    and "\<And>q. run rx (Close g # lit w @ r) q (w @ b) os cs = Some res"
  shows "run rx (Many False 0 k # Close g # lit w @ r) p (c @ w @ b) os cs = Some res"
  using assms(1,3)
proof (induction c arbitrary: p)
  case Nil
  obtain y w' where w: "w = y # w'" using assms(2) by (cases w) auto
  show ?case using assms(4)[of p] by (simp add: w run_lazy_cons)
next
  case (Cons x c)
  then have a: "\<not> prefix w (x # c @ butlast w)" and b: "\<not> sublist w (c @ butlast w)"
    by (simp_all add: sublist_Cons_right)
  have n: "run rx (Close g # lit w @ r) p (x # c @ w @ b) os cs = None"
    using prefix_inside[OF a assms(2), of b] by (simp add: run_lit)
  show ?case using Cons.IH[OF b, of "Some x"] Cons.prems(2) n
    by (simp add: run_lazy_cons)
qed

section \<open>Paragraph wrapping\<close>

lemma block_rx_sel:
  "rx_items block_rx =
     [Bol, Chr CHR ''<'',
      One (Class [CChar CHR ''h'', CChar CHR ''|'', CChar CHR ''u'', CChar CHR ''|'',
                  CChar CHR ''o'', CChar CHR ''|'', CChar CHR ''p'', CChar CHR ''|'',
                  CChar CHR ''b''])]"
  "rx_multiline block_rx = False" "rx_dotall block_rx = False" "rx_global block_rx = False"
  by (simp_all add: block_rx_def lit_def)

text \<open>Without the \<open>m\<close> flag \<open>^\<close> holds at the start of the segment only, so the
  search fails at every later position.\<close>

lemma matches_block_rx_later: "matches block_rx (Some c) s = False"
  by (induction s arbitrary: c) (simp_all add: block_rx_sel at_bol_def)

lemma matches_block_rx: "matches block_rx None seg = starts_block seg"
proof (cases seg)
  case Nil
  then show ?thesis by (simp add: block_rx_sel starts_block_def at_bol_def)
next
  case (Cons a t)
  then show ?thesis
    by (cases t) (auto simp add: block_rx_sel starts_block_def at_bol_def in_cset_def
        matches_block_rx_later)
qed

lemma wrap_para_eq:
  "wrap_para seg = (if starts_block seg then seg else ''<p>'' @ seg @ ''</p>'')"
  by (simp add: wrap_para_def matches_block_rx)

text \<open>
  C10. The paragraph stage maps every segment between blank lines by one rule: the segment
  is kept as it is when it starts with \<open><\<close> and one of \<open>h\<close>, \<open>u\<close>, \<open>o\<close>,
  \<open>p\<close>, \<open>b\<close>, \<open>|\<close>, and is put between \<open><p>\<close> and \<open></p>\<close> otherwise. So a
  segment that begins with \<open><pre>\<close> or \<open><hr>\<close> stays unwrapped, and one that begins
  with \<open><code>\<close>, \<open><em>\<close>, \<open><strong>\<close>, \<open><a\<close> or \<open><img\<close> is wrapped.
\<close>

theorem paragraph_wrap_rule:
  "paragraphs s =
     join [nl] (map (\<lambda>seg. if starts_block seg then seg else ''<p>'' @ seg @ ''</p>'')
                    (split_blank [] s))
   \<and> (wrap_para seg = seg \<longleftrightarrow> starts_block seg)
   \<and> (wrap_para seg = ''<p>'' @ seg @ ''</p>'' \<longleftrightarrow> \<not> starts_block seg)
   \<and> wrap_para (''<pre>'' @ t) = ''<pre>'' @ t
   \<and> wrap_para (''<hr>'' @ t) = ''<hr>'' @ t
   \<and> wrap_para (''<code>'' @ t) = ''<p><code>'' @ t @ ''</p>''
   \<and> wrap_para (''<em>'' @ t) = ''<p><em>'' @ t @ ''</p>''
   \<and> wrap_para (''<strong>'' @ t) = ''<p><strong>'' @ t @ ''</p>''
   \<and> wrap_para (''<a '' @ t) = ''<p><a '' @ t @ ''</p>''
   \<and> wrap_para (''<img '' @ t) = ''<p><img '' @ t @ ''</p>''"
  unfolding paragraphs_def
  by (simp add: wrap_para_eq[abs_def] wrap_para_eq starts_block_def)

theorem paragraph_wrap_rule_witness:
  "paragraphs (''<hr>'' @ [nl, nl] @ ''<em>x</em>'') = ''<hr>'' @ [nl] @ ''<p><em>x</em></p>''
   \<and> wrap_para ''<pre>x'' = ''<pre>x''
   \<and> wrap_para ''<code>x'' = ''<p><code>x</p>''"
  using paragraph_wrap_rule [of "''<hr>'' @ [nl, nl] @ ''<em>x</em>''" "''<pre>x''" "''x''"]
  by (simp add: starts_block_def nl_def)

text \<open>
  C6, as the code has it. A segment that begins with \<open><li\<close> is put between
  \<open><p>\<close> and \<open></p>\<close>: the letter \<open>l\<close> is not in the class that the paragraph
  stage tests.
\<close>

theorem li_segment_wrapped:
  "wrap_para (''<li'' @ t) = ''<p>'' @ (''<li'' @ t) @ ''</p>''"
  by (simp add: wrap_para_eq starts_block_def)

text \<open>
  C6, as the specification states it, fails: the ordered-list line \<open>1. a\<close> becomes one
  segment \<open><li>a</li>\<close>, and the converter returns it inside a paragraph.
\<close>

theorem li_segment_counterexample:
  "ol_items ''1. a'' = ''<li>a</li>''
   \<and> paragraphs ''<li>a</li>'' = ''<p><li>a</li></p>''
   \<and> parse (JStr ''1. a'') = Inr ''<p><li>a</li></p>''
   \<and> parse (JStr ''1. a'') \<noteq> Inr ''<li>a</li>''"
  by code_simp

section \<open>The contract of the converter\<close>


text \<open>
  C8. The empty string and an absent argument (\<open>null\<close>, \<open>undefined\<close>) give the empty
  string.
\<close>

theorem parse_empty:
  "parse (JStr []) = Inr [] \<and> parse JNull = Inr [] \<and> parse JUndefined = Inr []"
  by (simp add: parse_def falsy_def)

text \<open>
  C9. \<open>**bold** and *italic*\<close> becomes one \<open><strong>\<close> span and one \<open><em>\<close> span
  inside a paragraph: the bold stage runs before the italic stage.
\<close>

theorem parse_bold_italic:
  "parse (JStr ''**bold** and *italic*'') = Inr ''<p><strong>bold</strong> and <em>italic</em></p>''"
  by code_simp

section \<open>The list container\<close>

lemma ul_wrap_rx_sel:
  "rx_items ul_wrap_rx = Open 1 # lit ''<li>'' @ Many True 0 Dot # lit ''</li>'' @ [Close 1]"
  "rx_dotall ul_wrap_rx = True" "rx_global ul_wrap_rx = False"
  by (simp_all add: ul_wrap_rx_def)

lemma no_li_prefix:
  "\<not> prefix ''<li>'' (x # a) \<Longrightarrow> \<not> prefix ''<li>'' (x # a @ ''<li>'' @ s)"
  by (cases a; cases "tl a"; cases "tl (tl a)") auto

lemma ul_skip:
  "\<not> sublist ''<li>'' a \<Longrightarrow>
   replace ul_wrap_rx tpl p (a @ ''<li>'' @ s) = a @ replace ul_wrap_rx tpl q (''<li>'' @ s)"
proof (induction a arbitrary: p)
  case Nil
  show ?case
    by (simp, rule replace_prev) (simp add: ul_wrap_rx_sel run_lit)
next
  case (Cons x a)
  then have a: "\<not> prefix ''<li>'' (x # a)" and b: "\<not> sublist ''<li>'' a"
    by (simp_all add: sublist_Cons_right)
  have "run ul_wrap_rx (rx_items ul_wrap_rx) p ((x # a) @ ''<li>'' @ s) no_caps no_caps = None"
    using no_li_prefix[OF a, of s] by (simp add: ul_wrap_rx_sel run_lit del: Cons_prefix_Cons)
  then show ?case using Cons.IH[OF b] by (subst replace.simps) simp
qed

text \<open>
  C4, as the code has it. The pattern of the container has the \<open>s\<close> flag and a greedy
  \<open>.*\<close>, so the one \<open><ul>\<close> opens before the first \<open><li>\<close> of the text and
  closes behind its last \<open></li>\<close>: every list run and all the text between the runs
  lie inside it.
\<close>

theorem ul_wrap_spans_all:
  assumes "\<not> sublist ''<li>'' a" and "\<not> sublist ''</li>'' b"
  shows "ul_wrap (a @ ''<li>'' @ m @ ''</li>'' @ b) = a @ ''<ul><li>'' @ m @ ''</li></ul>'' @ b"
proof -
  let ?s = "''<li>'' @ m @ ''</li>'' @ b"
  let ?os = "no_caps(1 := ?s)"
  have nb: "\<not> sublist ''</li>'' (tl ''</li>'' @ b)"
    using assms(2) by (simp add: sublist_Cons_right)
  have cl: "run ul_wrap_rx [Close 1] (Some (last ''</li>'')) b ?os no_caps
      = Some (Some CHR ''>'', b, no_caps(1 := ''<li>'' @ m @ ''</li>''))"
    using close_take[of ?s "''<li>'' @ m @ ''</li>''" b] by simp
  have g: "run ul_wrap_rx (Many True 0 Dot # lit ''</li>'' @ [Close 1]) (Some CHR ''>'')
      (m @ ''</li>'' @ b) ?os no_caps = Some (Some CHR ''>'', b, no_caps(1 := ''<li>'' @ m @ ''</li>''))"
    by (rule greedy_last[OF cl _ nb]) (simp_all add: in_cset_def ul_wrap_rx_sel)
  have r: "run ul_wrap_rx (rx_items ul_wrap_rx) None ?s no_caps no_caps
      = Some (Some CHR ''>'', b, no_caps(1 := ''<li>'' @ m @ ''</li>''))"
    using g by (simp add: ul_wrap_rx_sel run_lit)
  have "replace ul_wrap_rx [Txt ''<ul>'', Ref 1, Txt ''</ul>''] None ?s
      = ''<ul><li>'' @ m @ ''</li></ul>'' @ b"
    using r by (subst replace.simps) (simp add: ul_wrap_rx_sel)
  then show ?thesis
    unfolding ul_wrap_def using ul_skip[OF assms(1), of _ None "m @ ''</li>'' @ b" None] by simp
qed


theorem ul_wrap_spans_all_witness:
  "\<not> sublist ''<li>'' ''x'' \<and> \<not> sublist ''</li>'' ''y''
   \<and> ul_wrap (''x'' @ ''<li>'' @ (''a</li>'' @ [nl, nl] @ ''text'' @ [nl, nl] @ ''<li>b'') @ ''</li>'' @ ''y'')
       = ''x'' @ ''<ul><li>'' @ (''a</li>'' @ [nl, nl] @ ''text'' @ [nl, nl] @ ''<li>b'') @ ''</li></ul>'' @ ''y''"
proof -
  have h1: "\<not> sublist ''<li>'' ''x''" by (simp add: sublist_Cons_right)
  have h2: "\<not> sublist ''</li>'' ''y''" by (simp add: sublist_Cons_right)
  show ?thesis
    using h1 h2
      ul_wrap_spans_all [OF h1 h2, of "''a</li>'' @ [nl, nl] @ ''text'' @ [nl, nl] @ ''<li>b''"]
    by simp
qed

text \<open>
  C4, as the specification states it, fails: two list runs with a paragraph between them
  end up in one \<open><ul>\<close> together with the paragraph, and the closing tag of the
  container follows the second run.
\<close>

theorem second_list_run_counterexample:
  "ul_wrap (''<li>a</li>'' @ [nl, nl] @ ''text'' @ [nl, nl] @ ''<li>b</li>'')
     = ''<ul><li>a</li>'' @ [nl, nl] @ ''text'' @ [nl, nl] @ ''<li>b</li></ul>''
   \<and> parse (JStr (''- a'' @ [nl, nl] @ ''text'' @ [nl, nl] @ ''- b''))
     = Inr (''<ul><li>a</li>'' @ [nl] @ ''<p>text</p>'' @ [nl] @ ''<p><li>b</li></ul></p>'')
   \<and> \<not> sublist ''<ul><li>a</li></ul>''
         (''<ul><li>a</li>'' @ [nl] @ ''<p>text</p>'' @ [nl] @ ''<p><li>b</li></ul></p>'')"
  by code_simp

section \<open>Fenced code blocks\<close>

lemma code_block_rx_sel:
  "rx_items code_block_rx =
     lit ''```'' @ Open 1 # Many False 0 (Class [CSpace, CNonSpace]) # Close 1 # lit ''```'' @ []"
  "rx_global code_block_rx = True"
  by (simp_all add: code_block_rx_def rx_g_def)

lemma code_block_prev:
  "replace code_block_rx tpl p s = replace code_block_rx tpl q s"
  by (rule replace_prev) (simp add: code_block_rx_sel run_lit)

lemma code_skip:
  "\<not> sublist ''```'' (a @ ''``'') \<Longrightarrow>
   replace code_block_rx tpl p (a @ ''```'' @ s) = a @ replace code_block_rx tpl None (''```'' @ s)"
proof (induction a arbitrary: p)
  case Nil
  show ?case by (simp add: code_block_prev[of tpl p _ None])
next
  case (Cons x a)
  then have a: "\<not> prefix ''```'' (x # a @ butlast ''```'')" and b: "\<not> sublist ''```'' (a @ ''``'')"
    by (simp_all add: sublist_Cons_right)
  have "run code_block_rx (rx_items code_block_rx) p ((x # a) @ ''```'' @ s) no_caps no_caps = None"
    using prefix_inside[OF a, of s] by (simp add: code_block_rx_sel run_lit del: Cons_prefix_Cons)
  then show ?case using Cons.IH[OF b] by (subst replace.simps) simp
qed

text \<open>
  C2, as the code has it. The code-block stage receives the text after the escape, header,
  bold and italic stages. It replaces the first fenced span of that text by
  \<open><pre><code>\<close>, the interior as it stands in that text, and \<open></code></pre>\<close>, and goes
  on behind the closing fence. Here \<open>a\<close> is the text before the first fence and
  \<open>c\<close> the interior up to the next fence.
\<close>

theorem code_block_verbatim_of_stage_input:
  assumes "\<not> sublist ''```'' (a @ ''``'')" and "\<not> sublist ''```'' (c @ ''``'')"
  shows "code_blocks (a @ ''```'' @ c @ ''```'' @ b)
         = a @ ''<pre><code>'' @ c @ ''</code></pre>'' @ code_blocks b"
proof -
  let ?k = "Class [CSpace, CNonSpace]"
  let ?s1 = "c @ ''```'' @ b"
  let ?os = "no_caps(1 := ?s1)"
  have k: "\<forall>x \<in> set c. in_cset code_block_rx ?k x" by (simp add: in_cset_def)
  have c2: "\<not> sublist ''```'' (c @ butlast ''```'')" using assms(2) by simp
  have t: "take (length ?s1 - length (''```'' @ b)) ?s1 = c" by simp
  have e: "\<And>q. run code_block_rx (Close 1 # lit ''```'' @ []) q (''```'' @ b) ?os no_caps
      = Some (Some CHR 0x60, b, no_caps(1 := c))"
    using t by (simp add: run_lit_end)
  have l: "run code_block_rx (Many False 0 ?k # Close 1 # lit ''```'' @ []) (Some CHR 0x60) ?s1 ?os no_caps
      = Some (Some CHR 0x60, b, no_caps(1 := c))"
    by (rule lazy_first[OF c2 _ k e]) simp
  have r: "run code_block_rx (rx_items code_block_rx) None (''```'' @ ?s1) no_caps no_caps
      = Some (Some CHR 0x60, b, no_caps(1 := c))"
    using l by (simp add: code_block_rx_sel run_lit)
  have "replace code_block_rx [Txt ''<pre><code>'', Ref 1, Txt ''</code></pre>''] None (''```'' @ ?s1)
      = ''<pre><code>'' @ c @ ''</code></pre>''
        @ replace code_block_rx [Txt ''<pre><code>'', Ref 1, Txt ''</code></pre>''] None b"
    using r code_block_prev[of _ "Some CHR 0x60" b None]
    by (subst replace.simps) (simp add: code_block_rx_sel)
  then show ?thesis
    unfolding code_blocks_def using code_skip[OF assms(1), of _ None ?s1] by simp
qed

theorem code_block_verbatim_of_stage_input_witness:
  "\<not> sublist ''```'' (''x '' @ ''``'') \<and> \<not> sublist ''```'' (''<strong>a</strong>'' @ ''``'')
   \<and> code_blocks (''x '' @ ''```'' @ ''<strong>a</strong>'' @ ''```'' @ '' y'')
       = ''x '' @ ''<pre><code>'' @ ''<strong>a</strong>'' @ ''</code></pre>'' @ '' y''"
proof -
  have h1: "\<not> sublist ''```'' (''x '' @ ''``'')" by (simp add: sublist_Cons_right)
  have h2: "\<not> sublist ''```'' (''<strong>a</strong>'' @ ''``'')" by (simp add: sublist_Cons_right)
  have e: "code_blocks '' y'' = '' y''" by code_simp
  show ?thesis
    using h1 h2 e code_block_verbatim_of_stage_input [OF h1 h2, of "'' y''"] by simp
qed

text \<open>
  C2, as the specification states it, fails: the bold stage has already rewritten the
  interior of the fence when the code-block stage runs, so the interior is not the escaped
  input text.
\<close>

theorem code_block_interior_counterexample:
  "escape ''**a**'' = ''**a**''
   \<and> parse (JStr ''```**a**```'') = Inr ''<pre><code><strong>a</strong></code></pre>''
   \<and> parse (JStr ''```**a**```'') \<noteq> Inr ''<pre><code>**a**</code></pre>''"
  by code_simp

section \<open>Stages that run too late\<close>

text \<open>
  C3. An image with a non-empty alternative text does not become \<open><img>\<close>: the link
  stage runs first and rewrites \<open>[alt](target)\<close> behind the exclamation mark. Only
  the image with an empty alternative text reaches the image stage.
\<close>

theorem image_with_alt_becomes_link:
  \<open>parse (JStr ''![alt](x.png)'') = Inr ''<p>!<a href="x.png" target="_blank">alt</a></p>''
   \<and> parse (JStr ''![](x.png)'') = Inr ''<p><img src="x.png" alt="" /></p>''\<close>
  by code_simp

text \<open>
  C5. A line \<open>---\<close> on its own becomes \<open><hr>\<close>, a line \<open>***\<close> does not: the
  italic stage runs before the rule stage and turns the three stars into an emphasised
  star. A line \<open>---\<close> below a bare \<open>#\<close> is lost as well: \<open>\s+\<close> of the header
  pattern runs over the line feed and takes the rule as the text of the header.
\<close>

theorem triple_star_becomes_em:
  "italic ''***'' = ''<em>*</em>''
   \<and> parse (JStr ''***'') = Inr ''<p><em>*</em></p>''
   \<and> parse (JStr ''---'') = Inr ''<hr>''
   \<and> parse (JStr (''#'' @ [nl] @ ''---'')) = Inr ''<h1>---</h1>''"
  by code_simp

section \<open>Well-escaped texts\<close>




lemma well_escaped_Nil [simp]: "well_escaped []"
  by (simp add: well_escaped_def)

















lemma ok_cut_simps [simp]: "ok_cut None y" "ok_cut p []"
  by (simp_all add: ok_cut_def split: option.split)













lemma lastopt_append: "lastopt (a @ b) = after (lastopt a) b"
  by (simp add: lastopt_def after_def)






lemma subst3 [simp]: "subst [Txt a, Ref g, Txt b] cs = a @ cs g @ b"
  by simp

lemma one_le_length [simp]: "Suc 0 \<le> length w \<longleftrightarrow> w \<noteq> []"
  by (cases w) auto

lemma in_space [simp]: "in_cset rx space x = is_space x"
  by (simp add: in_cset_def space_def)












section \<open>Every stage keeps the text well escaped\<close>

lemma rx_g_sel [simp]:
  "rx_items (rx_g its) = its" "rx_global (rx_g its) = True"
  "rx_multiline (rx_g its) = False" "rx_dotall (rx_g its) = False"
  by (simp_all add: rx_g_def)

lemma rx_gm_sel [simp]:
  "rx_items (rx_gm its) = its" "rx_global (rx_gm its) = True"
  "rx_multiline (rx_gm its) = True" "rx_dotall (rx_gm its) = False"
  by (simp_all add: rx_gm_def)







































end
